theory Spec2Isabelle
  imports Main "HOL-Library.Char_ord" "HOL-Library.List_Lexorder"
begin

section \<open>Data model\<close>

text \<open>
  Modelled from the spec: the table declarations of the seed file \<^verbatim>\<open>data/library.db\<close>,
  a binary SQLite image that the sources load but do not contain. Following the data
  model of the specification, every table has an engine-assigned integer key \<open>id\<close>;
  \<open>books.isbn\<close> and \<open>borrows.return_date\<close> are nullable (\<open>None\<close> is SQL \<open>NULL\<close>); the
  reference \<open>borrows.book_id\<close> carries no constraint that the engine enforces (the
  specification keeps closed loans of a deleted book as tolerated dangling references),
  and no table has a uniqueness or check constraint besides its key; so the statement
  \<^verbatim>\<open>PRAGMA foreign_keys = ON\<close>, which the engine runs on every handle it opens, has
  nothing to enforce. A table is the list of its rows in insertion order. SQLite integers are 64-bit; they are modelled
  as unbounded integers, the difference being out of reach of a copy count.
\<close>

record book =
  bk_id :: int
  bk_title :: string
  bk_author :: string
  bk_isbn :: "string option"
  bk_category :: string
  bk_copies :: int

record category =
  cat_id :: int
  cat_name :: string

record borrow =
  bw_id :: int
  bw_book_id :: int
  bw_borrower :: string
  bw_date_out :: string
  bw_due_date :: string
  bw_return_date :: "string option"

record setting =
  set_key :: string
  set_value :: string

record database =
  books :: "book list"
  categories :: "category list"
  borrows :: "borrow list"
  settings :: "setting list"

text \<open>
  A serialized database file, as \<^verbatim>\<open>_db.export()\<close> produces it and
  \<^verbatim>\<open>new _SQL.Database(bytes)\<close> reads it. The byte layout of SQLite is not modelled: a
  blob either is the image of a database or is a byte sequence that fails to open.
\<close>

datatype blob = DbFile database | NotADb "nat list"

datatype error =
    NotInitialised
  | TypeError
  | SqlError string
  | BodyError string
  | BookHasActiveLoans
  | CategoryExists
  | CategoryNameExists
  | CategoryNotFound
  | CategoryInUse
  | BookNotFound
  | NoCopiesAvailable

section \<open>The sql.js database handle\<close>

text \<open>
  The object behind \<^verbatim>\<open>_db\<close>. \<open>tables\<close> is the live content, \<open>snapshot\<close> the content
  saved by \<^verbatim>\<open>BEGIN\<close> (\<open>None\<close> outside a transaction), \<open>closed\<close> is set by
  \<^verbatim>\<open>close()\<close>, and \<open>last_rowid\<close> is what \<^verbatim>\<open>SELECT last_insert_rowid()\<close> returns.
\<close>

record handle =
  tables :: database
  snapshot :: "database option"
  closed :: bool
  last_rowid :: int

text \<open>
  The meaning of one mutating statement with its bound parameters: the new content,
  the number of rows modified, and the key of the inserted row if it is an insert.
\<close>

type_synonym stmt = "database \<Rightarrow> database \<times> nat \<times> int option"

record run_result =
  changes :: nat
  lastInsertRowid :: int



definition not_a_database :: error where
  "not_a_database = SqlError ''file is not a database''"


text \<open>
  \<^verbatim>\<open>export()\<close> closes the connection, reads the file and opens it again: a
  transaction in progress is rolled back, the bytes are those of the committed content,
  and \<^verbatim>\<open>last_insert_rowid()\<close> starts again at 0. The new connection also has
  \<^verbatim>\<open>foreign_keys\<close> off again, which this model, having no constraint to enforce,
  does not record.
\<close>

definition h_export :: "handle \<Rightarrow> error + (blob \<times> handle)" where
  "h_export h =
     (if closed h then Inl (SqlError ''Database closed'')
      else (let d = (case snapshot h of None \<Rightarrow> tables h | Some d0 \<Rightarrow> d0)
            in Inr (DbFile d, h\<lparr>tables := d, snapshot := None, last_rowid := 0\<rparr>)))"

definition h_exec :: "(database \<Rightarrow> 'r) \<Rightarrow> handle \<Rightarrow> error + 'r" where
  "h_exec q h = (if closed h then Inl (SqlError ''Database closed'') else Inr (q (tables h)))"

definition h_run :: "stmt \<Rightarrow> handle \<Rightarrow> error + (handle \<times> nat)" where
  "h_run s h =
     (if closed h then Inl (SqlError ''Database closed'')
      else (case s (tables h) of
              (d, n, rid) \<Rightarrow>
                Inr (h\<lparr>tables := d,
                        last_rowid := (case rid of None \<Rightarrow> last_rowid h | Some r \<Rightarrow> r)\<rparr>, n)))"

definition h_begin :: "handle \<Rightarrow> error + handle" where
  "h_begin h =
     (if closed h then Inl (SqlError ''Database closed'')
      else if snapshot h \<noteq> None
        then Inl (SqlError ''cannot start a transaction within a transaction'')
      else Inr (h\<lparr>snapshot := Some (tables h)\<rparr>))"

definition h_commit :: "handle \<Rightarrow> error + handle" where
  "h_commit h =
     (if closed h then Inl (SqlError ''Database closed'')
      else if snapshot h = None
        then Inl (SqlError ''cannot commit - no transaction is active'')
      else Inr (h\<lparr>snapshot := None\<rparr>))"

definition h_rollback :: "handle \<Rightarrow> error + handle" where
  "h_rollback h =
     (if closed h then Inl (SqlError ''Database closed'')
      else (case snapshot h of
              None \<Rightarrow> Inl (SqlError ''cannot rollback - no transaction is active'')
            | Some d \<Rightarrow> Inr (h\<lparr>tables := d, snapshot := None\<rparr>)))"

section \<open>The database engine (db-core.js)\<close>

text \<open>
  The module state. The variable \<^verbatim>\<open>_db\<close> takes two fields: \<open>db\<close> is the handle
  when \<^verbatim>\<open>_db\<close> is a handle on a database, and \<open>notadb\<close> holds the bytes when
  \<^verbatim>\<open>_db\<close> is a handle on a file that is not one (\<open>db\<close> is \<open>None\<close> then, and
  \<open>notadb\<close> is read only then); both \<open>None\<close> is \<^verbatim>\<open>null\<close>. The other fields are
  whether \<^verbatim>\<open>_SQL\<close> is loaded, \<^verbatim>\<open>_dirty\<close>, and the value stored in IndexedDB under
  the key \<^verbatim>\<open>library.db\<close>. Writing to IndexedDB is taken to succeed. On a handle whose
  file is not a database, \<^verbatim>\<open>BEGIN\<close>, \<^verbatim>\<open>COMMIT\<close> and \<^verbatim>\<open>ROLLBACK\<close> touch no
  page and succeed, every other statement fails, and \<^verbatim>\<open>export()\<close> returns the bytes.
\<close>

record engine =
  db :: "handle option"
  notadb :: "nat list option"
  SQL :: bool
  dirty :: bool
  idb :: "blob option"

definition saveToIDB :: "blob \<Rightarrow> engine \<Rightarrow> engine" where
  "saveToIDB uint8 st = st\<lparr>idb := Some uint8\<rparr>"

definition query :: "(database \<Rightarrow> 'r) \<Rightarrow> engine \<Rightarrow> error + 'r" where
  "query q st =
     (case db st of
        None \<Rightarrow> (case notadb st of None \<Rightarrow> Inl NotInitialised | Some _ \<Rightarrow> Inl not_a_database)
      | Some h \<Rightarrow> h_exec q h)"

definition persist :: "engine \<Rightarrow> (error + unit) \<times> engine" where
  "persist st =
     (case db st of
        None \<Rightarrow>
          (case notadb st of
             None \<Rightarrow> (Inr (), st)
           | Some bs \<Rightarrow>
               if \<not> dirty st then (Inr (), st)
               else (Inr (), (saveToIDB (NotADb bs) st)\<lparr>dirty := False\<rparr>))
      | Some h \<Rightarrow>
          if \<not> dirty st then (Inr (), st)
          else (case h_export h of
                  Inl e \<Rightarrow> (Inl e, st)
                | Inr (uint8, h') \<Rightarrow>
                    (Inr (), (saveToIDB uint8 (st\<lparr>db := Some h'\<rparr>))\<lparr>dirty := False\<rparr>)))"

definition run :: "stmt \<Rightarrow> engine \<Rightarrow> (error + run_result) \<times> engine" where
  "run s st =
     (case db st of
        None \<Rightarrow>
          (case notadb st of
             None \<Rightarrow> (Inl NotInitialised, st)
           | Some _ \<Rightarrow> (Inl not_a_database, st))
      | Some h \<Rightarrow>
          (case h_run s h of
             Inl e \<Rightarrow> (Inl e, st)
           | Inr (h', n) \<Rightarrow>
               (case persist (st\<lparr>db := Some h', dirty := True\<rparr>) of
                  (Inl e, st') \<Rightarrow> (Inl e, st')
                | (Inr _, st') \<Rightarrow> (Inr \<lparr>changes = n, lastInsertRowid = last_rowid h'\<rparr>, st'))))"

definition runInTx :: "stmt \<Rightarrow> handle \<Rightarrow> error + (run_result \<times> handle)" where
  "runInTx s h =
     (case h_run s h of
        Inl e \<Rightarrow> Inl e
      | Inr (h', n) \<Rightarrow> Inr (\<lparr>changes = n, lastInsertRowid = last_rowid h'\<rparr>, h'))"

text \<open>
  The callback \<^verbatim>\<open>fn\<close> given to \<^verbatim>\<open>transaction\<close>, as the sequence of things it does
  with the function \<^verbatim>\<open>tx\<close> it receives: return, throw, or call \<^verbatim>\<open>tx\<close> on a statement
  and go on with the result.
\<close>

datatype txbody = Return | Raise error | Tx stmt "run_result \<Rightarrow> txbody"

primrec run_body :: "txbody \<Rightarrow> handle \<Rightarrow> (error + unit) \<times> handle" where
  "run_body Return h = (Inr (), h)"
| "run_body (Raise e) h = (Inl e, h)"
| "run_body (Tx s k) h =
     (case runInTx s h of
        Inl e \<Rightarrow> (Inl e, h)
      | Inr (r, h') \<Rightarrow> run_body (k r) h')"

text \<open>The body on a handle whose file is not a database: its first statement fails.\<close>

primrec run_body_unreadable :: "txbody \<Rightarrow> error + unit" where
  "run_body_unreadable Return = Inr ()"
| "run_body_unreadable (Raise e) = Inl e"
| "run_body_unreadable (Tx s k) = Inl not_a_database"

text \<open>The \<^verbatim>\<open>try\<close> block of \<^verbatim>\<open>transaction\<close>, with the engine as it is when it stops.\<close>

definition transaction_try :: "txbody \<Rightarrow> handle \<Rightarrow> engine \<Rightarrow> (error + unit) \<times> engine" where
  "transaction_try fn h st =
     (case h_begin h of
        Inl e \<Rightarrow> (Inl e, st)
      | Inr h1 \<Rightarrow>
          (case run_body fn h1 of
             (Inl e, h2) \<Rightarrow> (Inl e, st\<lparr>db := Some h2\<rparr>)
           | (Inr _, h2) \<Rightarrow>
               (case h_commit h2 of
                  Inl e \<Rightarrow> (Inl e, st\<lparr>db := Some h2\<rparr>)
                | Inr h3 \<Rightarrow> persist (st\<lparr>db := Some h3, dirty := True\<rparr>))))"

definition transaction :: "txbody \<Rightarrow> engine \<Rightarrow> (error + unit) \<times> engine" where
  "transaction fn st =
     (case db st of
        None \<Rightarrow>
          (case notadb st of
             None \<Rightarrow> (Inl NotInitialised, st)
           | Some _ \<Rightarrow>
               (case run_body_unreadable fn of
                  Inl e \<Rightarrow> (Inl e, st)
                | Inr _ \<Rightarrow> persist (st\<lparr>dirty := True\<rparr>)))
      | Some h \<Rightarrow>
          (case transaction_try fn h st of
             (Inr u, st1) \<Rightarrow> (Inr u, st1)
           | (Inl err, st1) \<Rightarrow>
               (case db st1 of
                  None \<Rightarrow> (Inl TypeError, st1)
                | Some h1 \<Rightarrow>
                    (case h_rollback h1 of
                       Inl e2 \<Rightarrow> (Inl e2, st1)
                     | Inr h2 \<Rightarrow> (Inl err, st1\<lparr>db := Some h2\<rparr>)))))"


text \<open>
  The engine is ready when it holds an open handle with no transaction in progress,
  as an initialised engine does between two operations; \<open>live\<close> is the content a
  query then reads.
\<close>

definition ready :: "engine \<Rightarrow> bool" where
  "ready st = (case db st of None \<Rightarrow> False | Some h \<Rightarrow> \<not> closed h \<and> snapshot h = None)"

definition live :: "engine \<Rightarrow> database option" where
  "live st = (case db st of None \<Rightarrow> None | Some h \<Rightarrow> if closed h then None else Some (tables h))"

section \<open>SQL as used by the repository layer\<close>

text \<open>
  \<^verbatim>\<open>TRIM(x)\<close> with one argument removes the space character from both ends;
  \<^verbatim>\<open>LOWER(x)\<close> folds the letters A to Z. The comparisons of the repository are all
  of the form \<^verbatim>\<open>LOWER(TRIM(col)) = LOWER(TRIM(?))\<close>.
\<close>

definition sql_trim :: "string \<Rightarrow> string" where
  "sql_trim s = rev (dropWhile (\<lambda>c. c = CHR '' '') (rev (dropWhile (\<lambda>c. c = CHR '' '') s)))"

definition lower_char :: "char \<Rightarrow> char" where
  "lower_char c =
     (let n = (of_char c :: nat) in if 65 \<le> n \<and> n \<le> 90 then char_of (n + 32) else c)"

definition sql_lower :: "string \<Rightarrow> string" where
  "sql_lower s = map lower_char s"

definition lower_trim :: "string \<Rightarrow> string" where
  "lower_trim s = sql_lower (sql_trim s)"

text \<open>
  \<^verbatim>\<open>text LIKE pattern\<close>: \<^verbatim>\<open>%\<close> stands for any run of characters, \<^verbatim>\<open>_\<close> for one
  character, anything else for itself up to the case of A to Z. The pattern comes first.
\<close>

fun sql_like :: "string \<Rightarrow> string \<Rightarrow> bool" where
  "sql_like [] s = (s = [])"
| "sql_like (p # ps) [] = (p = CHR ''%'' \<and> sql_like ps [])"
| "sql_like (p # ps) (c # cs) =
     (if p = CHR ''%'' then sql_like ps (c # cs) \<or> sql_like (p # ps) cs
      else (p = CHR ''_'' \<or> lower_char p = lower_char c) \<and> sql_like ps cs)"

text \<open>
  The key given to an inserted row: one more than the largest key of the table, 1 for
  an empty table.
\<close>

definition next_rowid :: "int list \<Rightarrow> int" where
  "next_rowid ids = (case ids of [] \<Rightarrow> 1 | x # xs \<Rightarrow> fold max xs x + 1)"

text \<open>\<^verbatim>\<open>UPDATE books SET ... WHERE ...\<close> and \<^verbatim>\<open>DELETE FROM books WHERE ...\<close>.\<close>

definition sql_update_books :: "(book \<Rightarrow> bool) \<Rightarrow> (book \<Rightarrow> book) \<Rightarrow> stmt" where
  "sql_update_books wh upd d =
     (d\<lparr>books := map (\<lambda>b. if wh b then upd b else b) (books d)\<rparr>,
      length (filter wh (books d)), None)"

definition sql_delete_books :: "(book \<Rightarrow> bool) \<Rightarrow> stmt" where
  "sql_delete_books wh d =
     (d\<lparr>books := filter (\<lambda>b. \<not> wh b) (books d)\<rparr>, length (filter wh (books d)), None)"

text \<open>\<^verbatim>\<open>UPDATE categories SET ... WHERE ...\<close> and \<^verbatim>\<open>UPDATE borrows SET ... WHERE ...\<close>.\<close>

definition sql_update_categories :: "(category \<Rightarrow> bool) \<Rightarrow> (category \<Rightarrow> category) \<Rightarrow> stmt" where
  "sql_update_categories wh upd d =
     (d\<lparr>categories := map (\<lambda>c. if wh c then upd c else c) (categories d)\<rparr>,
      length (filter wh (categories d)), None)"

definition sql_update_borrows :: "(borrow \<Rightarrow> bool) \<Rightarrow> (borrow \<Rightarrow> borrow) \<Rightarrow> stmt" where
  "sql_update_borrows wh upd d =
     (d\<lparr>borrows := map (\<lambda>b. if wh b then upd b else b) (borrows d)\<rparr>,
      length (filter wh (borrows d)), None)"

text \<open>\<^verbatim>\<open>INSERT INTO categories (name) VALUES (?)\<close> and \<^verbatim>\<open>DELETE FROM categories WHERE ...\<close>.\<close>

definition sql_insert_category :: "string \<Rightarrow> stmt" where
  "sql_insert_category name d =
     (let i = next_rowid (map cat_id (categories d))
      in (d\<lparr>categories := categories d @ [\<lparr>cat_id = i, cat_name = name\<rparr>]\<rparr>, 1, Some i))"

definition sql_delete_categories :: "(category \<Rightarrow> bool) \<Rightarrow> stmt" where
  "sql_delete_categories wh d =
     (d\<lparr>categories := filter (\<lambda>c. \<not> wh c) (categories d)\<rparr>,
      length (filter wh (categories d)), None)"

text \<open>
  \<^verbatim>\<open>INSERT INTO books (title, author, isbn, category, copies) VALUES (?, ?, ?, ?, ?)\<close>
\<close>

definition sql_insert_book :: "string \<Rightarrow> string \<Rightarrow> string \<Rightarrow> string \<Rightarrow> int \<Rightarrow> stmt" where
  "sql_insert_book title author isbn category copies d =
     (let i = next_rowid (map bk_id (books d))
      in (d\<lparr>books := books d @
               [\<lparr>bk_id = i, bk_title = title, bk_author = author, bk_isbn = Some isbn,
                 bk_category = category, bk_copies = copies\<rparr>]\<rparr>,
          1, Some i))"

text \<open>
  \<^verbatim>\<open>INSERT INTO borrows (book_id, borrower, date_out, due_date) VALUES (?, ?, ?, ?)\<close>:
  the column \<open>return_date\<close> is not listed and stays \<open>NULL\<close>.
\<close>

definition sql_insert_borrow :: "int \<Rightarrow> string \<Rightarrow> string \<Rightarrow> string \<Rightarrow> stmt" where
  "sql_insert_borrow bookId borrower dateOut dueDate d =
     (let i = next_rowid (map bw_id (borrows d))
      in (d\<lparr>borrows := borrows d @
               [\<lparr>bw_id = i, bw_book_id = bookId, bw_borrower = borrower, bw_date_out = dateOut,
                 bw_due_date = dueDate, bw_return_date = None\<rparr>]\<rparr>,
          1, Some i))"

text \<open>\<^verbatim>\<open>FROM borrows b JOIN books bk ON bk.id = b.book_id\<close>\<close>

definition borrows_join_books :: "database \<Rightarrow> (borrow \<times> book) list" where
  "borrows_join_books d =
     concat (map (\<lambda>b. map (Pair b) (filter (\<lambda>bk. bk_id bk = bw_book_id b) (books d))) (borrows d))"

text \<open>
  \<^verbatim>\<open>ORDER BY key DESC\<close>: larger keys first, rows with equal keys in the order in
  which the scan produced them (\<open>sort_key\<close> is stable, so sorting the reversed list
  and reversing the result keeps that order).
\<close>

definition order_by_desc :: "('a \<Rightarrow> 'k::linorder) \<Rightarrow> 'a list \<Rightarrow> 'a list" where
  "order_by_desc key xs = rev (sort_key key (rev xs))"

section \<open>The comparison in the words of the specification\<close>

text \<open>
  From the words of the specification, not from the code: ``string equality after
  case-folding and trimming whitespace''. Whitespace is the space character and the
  characters 9 to 13 (tab, line feed, vertical tab, form feed, carriage return); case
  folding is taken on the letters A to Z only, the least it can mean, so two strings
  equal under \<open>spec_normalize\<close> are equal under every reading of those words. It is
  used only to compare that wording with \<open>lower_trim\<close>, which is what the code computes.
\<close>

definition is_space :: "char \<Rightarrow> bool" where
  "is_space c = (let n = (of_char c :: nat) in n = 32 \<or> (9 \<le> n \<and> n \<le> 13))"

definition spec_trim :: "string \<Rightarrow> string" where
  "spec_trim s = rev (dropWhile is_space (rev (dropWhile is_space s)))"

definition spec_normalize :: "string \<Rightarrow> string" where
  "spec_normalize s = sql_lower (spec_trim s)"

section \<open>The repository layer (db-library.js)\<close>

subsection \<open>Books\<close>

definition getBook :: "int \<Rightarrow> engine \<Rightarrow> error + book option" where
  "getBook bid st =
     (case query (\<lambda>d. filter (\<lambda>b. bk_id b = bid) (books d)) st of
        Inl e \<Rightarrow> Inl e
      | Inr rows \<Rightarrow> Inr (case rows of [] \<Rightarrow> None | r # _ \<Rightarrow> Some r))"

text \<open>
  \<^verbatim>\<open>WHERE LOWER(TRIM(title)) = LOWER(TRIM(?)) AND LOWER(TRIM(isbn)) = LOWER(TRIM(?))\<close>;
  a comparison with a \<open>NULL\<close> isbn is not true.
\<close>

definition same_title_isbn :: "string \<Rightarrow> string \<Rightarrow> book \<Rightarrow> bool" where
  "same_title_isbn title isbn b =
     (lower_trim (bk_title b) = lower_trim title \<and>
      (case bk_isbn b of None \<Rightarrow> False | Some i \<Rightarrow> lower_trim i = lower_trim isbn))"

record add_result =
  res_id :: int
  merged :: bool
  res_copies :: int

definition addBook ::
  "string \<Rightarrow> string \<Rightarrow> string \<Rightarrow> string \<Rightarrow> int \<Rightarrow> engine \<Rightarrow> (error + add_result) \<times> engine" where
  "addBook title author isbn category copies st =
     (case query (\<lambda>d. filter (same_title_isbn title isbn) (books d)) st of
        Inl e \<Rightarrow> (Inl e, st)
      | Inr (existing # _) \<Rightarrow>
          (case run (sql_update_books (\<lambda>b. bk_id b = bk_id existing)
                       (\<lambda>b. b\<lparr>bk_copies := bk_copies b + copies\<rparr>)) st of
             (Inl e, st') \<Rightarrow> (Inl e, st')
           | (Inr _, st') \<Rightarrow>
               (Inr \<lparr>res_id = bk_id existing, merged = True,
                     res_copies = bk_copies existing + copies\<rparr>, st'))
      | Inr [] \<Rightarrow>
          (case run (sql_insert_book title author isbn category copies) st of
             (Inl e, st') \<Rightarrow> (Inl e, st')
           | (Inr result, st') \<Rightarrow>
               (Inr \<lparr>res_id = lastInsertRowid result, merged = False, res_copies = copies\<rparr>, st')))"

definition deleteBook :: "int \<Rightarrow> engine \<Rightarrow> (error + unit) \<times> engine" where
  "deleteBook bid st =
     (case query (\<lambda>d. take 1 (filter (\<lambda>b. bw_book_id b = bid \<and> bw_return_date b = None) (borrows d))) st of
        Inl e \<Rightarrow> (Inl e, st)
      | Inr active \<Rightarrow>
          if active \<noteq> [] then (Inl BookHasActiveLoans, st)
          else (case run (sql_delete_books (\<lambda>b. bk_id b = bid)) st of
                  (Inl e, st') \<Rightarrow> (Inl e, st')
                | (Inr _, st') \<Rightarrow> (Inr (), st')))"

subsection \<open>Categories\<close>

definition addCategory :: "string \<Rightarrow> engine \<Rightarrow> (error + int) \<times> engine" where
  "addCategory name st =
     (case query (\<lambda>d. filter (\<lambda>c. lower_trim (cat_name c) = lower_trim name) (categories d)) st of
        Inl e \<Rightarrow> (Inl e, st)
      | Inr (exists # _) \<Rightarrow> (Inl CategoryExists, st)
      | Inr [] \<Rightarrow>
          (case run (sql_insert_category name) st of
             (Inl e, st') \<Rightarrow> (Inl e, st')
           | (Inr result, st') \<Rightarrow> (Inr (lastInsertRowid result), st')))"

definition updateCategory :: "int \<Rightarrow> string \<Rightarrow> engine \<Rightarrow> (error + unit) \<times> engine" where
  "updateCategory cid newName st =
     (case query (\<lambda>d. filter (\<lambda>c. lower_trim (cat_name c) = lower_trim newName \<and> cat_id c \<noteq> cid)
                         (categories d)) st of
        Inl e \<Rightarrow> (Inl e, st)
      | Inr (dup # _) \<Rightarrow> (Inl CategoryNameExists, st)
      | Inr [] \<Rightarrow>
          (case query (\<lambda>d. filter (\<lambda>c. cat_id c = cid) (categories d)) st of
             Inl e \<Rightarrow> (Inl e, st)
           | Inr [] \<Rightarrow> (Inl CategoryNotFound, st)
           | Inr (old # _) \<Rightarrow>
               transaction
                 (Tx (sql_update_categories (\<lambda>c. cat_id c = cid) (\<lambda>c. c\<lparr>cat_name := newName\<rparr>))
                   (\<lambda>_. Tx (sql_update_books
                                (\<lambda>b. lower_trim (bk_category b) = lower_trim (cat_name old))
                                (\<lambda>b. b\<lparr>bk_category := newName\<rparr>))
                   (\<lambda>_. Return))) st))"

definition deleteCategory :: "int \<Rightarrow> engine \<Rightarrow> (error + unit) \<times> engine" where
  "deleteCategory cid st =
     (case query (\<lambda>d. filter (\<lambda>c. cat_id c = cid) (categories d)) st of
        Inl e \<Rightarrow> (Inl e, st)
      | Inr [] \<Rightarrow> (Inl CategoryNotFound, st)
      | Inr (cat # _) \<Rightarrow>
          (case query (\<lambda>d. take 1 (filter (\<lambda>b. lower_trim (bk_category b) = lower_trim (cat_name cat))
                                       (books d))) st of
             Inl e \<Rightarrow> (Inl e, st)
           | Inr (used # _) \<Rightarrow> (Inl CategoryInUse, st)
           | Inr [] \<Rightarrow>
               (case run (sql_delete_categories (\<lambda>c. cat_id c = cid)) st of
                  (Inl e, st') \<Rightarrow> (Inl e, st')
                | (Inr _, st') \<Rightarrow> (Inr (), st'))))"

subsection \<open>Borrows\<close>

definition recordBorrow ::
  "int \<Rightarrow> string \<Rightarrow> string \<Rightarrow> string \<Rightarrow> engine \<Rightarrow> (error + unit) \<times> engine" where
  "recordBorrow bookId borrower dateOut dueDate st =
     (case getBook bookId st of
        Inl e \<Rightarrow> (Inl e, st)
      | Inr None \<Rightarrow> (Inl BookNotFound, st)
      | Inr (Some book) \<Rightarrow>
          if bk_copies book < 1 then (Inl NoCopiesAvailable, st)
          else transaction
                 (Tx (sql_insert_borrow bookId borrower dateOut dueDate)
                   (\<lambda>_. Tx (sql_update_books (\<lambda>b. bk_id b = bookId)
                                (\<lambda>b. b\<lparr>bk_copies := bk_copies b - 1\<rparr>))
                   (\<lambda>_. Return))) st)"

definition recordReturn :: "int \<Rightarrow> int \<Rightarrow> string \<Rightarrow> engine \<Rightarrow> (error + unit) \<times> engine" where
  "recordReturn borrowId bookId returnDate st =
     transaction
       (Tx (sql_update_borrows (\<lambda>b. bw_id b = borrowId)
              (\<lambda>b. b\<lparr>bw_return_date := Some returnDate\<rparr>))
         (\<lambda>_. Tx (sql_update_books (\<lambda>b. bk_id b = bookId)
                      (\<lambda>b. b\<lparr>bk_copies := bk_copies b + 1\<rparr>))
         (\<lambda>_. Return))) st"

record borrow_row =
  r_id :: int
  r_borrower :: string
  r_date_out :: string
  r_due_date :: string
  r_return_date :: "string option"
  r_book_title :: string
  r_book_id :: int

definition borrow_row_of :: "borrow \<times> book \<Rightarrow> borrow_row" where
  "borrow_row_of p =
     (case p of (b, bk) \<Rightarrow>
        \<lparr>r_id = bw_id b, r_borrower = bw_borrower b, r_date_out = bw_date_out b,
         r_due_date = bw_due_date b, r_return_date = bw_return_date b,
         r_book_title = bk_title bk, r_book_id = bk_id bk\<rparr>)"

definition getAllBorrows :: "string \<Rightarrow> engine \<Rightarrow> error + borrow_row list" where
  "getAllBorrows search st =
     (let t = ''%'' @ search @ ''%''
      in query (\<lambda>d. map borrow_row_of
                  (order_by_desc (\<lambda>p. bw_date_out (fst p))
                     (filter (\<lambda>p. case p of (b, bk) \<Rightarrow>
                                 sql_like t (bw_borrower b) \<or> sql_like t (bk_title bk) \<or>
                                 (case bk_isbn bk of None \<Rightarrow> False | Some i \<Rightarrow> sql_like t i))
                        (borrows_join_books d)))) st)"

subsection \<open>Stats\<close>

record stats =
  totalCopies :: int
  totalTitles :: nat
  activeLoans :: nat
  returnedLoans :: nat
  overdueCount :: nat
  topBooks :: "(string \<times> string \<times> nat) list"
  dueToday :: "(string \<times> string) list"

text \<open>
  \<^verbatim>\<open>SELECT bk.title, bk.author, COUNT(b.id) AS borrow_count FROM borrows b JOIN books bk
  ON bk.id = b.book_id GROUP BY b.book_id ORDER BY borrow_count DESC LIMIT 5\<close>:
  one row for each book id of the join, the groups coming in ascending order of that id
  before they are ordered by their count.
\<close>

definition top_books :: "database \<Rightarrow> (string \<times> string \<times> nat) list" where
  "top_books d =
     (let j = borrows_join_books d;
          groups = map (\<lambda>k. filter (\<lambda>p. bw_book_id (fst p) = k) j)
                     (sort (remdups (map (\<lambda>p. bw_book_id (fst p)) j)))
      in take 5 (order_by_desc (\<lambda>r. snd (snd r))
           (concat (map (\<lambda>g. case g of [] \<Rightarrow> []
                                 | p # _ \<Rightarrow> [(bk_title (snd p), bk_author (snd p), length g)])
                      groups))))"

text \<open>
  The current date \<^verbatim>\<open>DB.today()\<close> is a parameter. The queries of \<^verbatim>\<open>getStats\<close> read
  the same handle one after the other; \<open>stats_of\<close> is what they return on its content,
  and \<open>getStats\<close> is modelled as one read.
\<close>

definition stats_of :: "string \<Rightarrow> database \<Rightarrow> stats" where
  "stats_of today d =
     \<lparr>totalCopies = sum_list (map bk_copies (books d)),
      totalTitles = length (books d),
      activeLoans = length (filter (\<lambda>b. bw_return_date b = None) (borrows d)),
      returnedLoans = length (filter (\<lambda>b. bw_return_date b \<noteq> None) (borrows d)),
      overdueCount =
        length (filter (\<lambda>b. bw_return_date b = None \<and> bw_due_date b < today) (borrows d)),
      topBooks = top_books d,
      dueToday =
        map (\<lambda>p. (bw_borrower (fst p), bk_title (snd p)))
          (filter (\<lambda>p. bw_return_date (fst p) = None \<and> bw_due_date (fst p) = today)
             (borrows_join_books d))\<rparr>"

definition getStats :: "string \<Rightarrow> engine \<Rightarrow> error + stats" where
  "getStats today st = query (stats_of today) st"

subsection \<open>A caller adding books one after the other\<close>

record add_call =
  a_title :: string
  a_author :: string
  a_isbn :: string
  a_category :: string
  a_copies :: int

fun addBooks :: "add_call list \<Rightarrow> engine \<Rightarrow> (error + add_result list) \<times> engine" where
  "addBooks [] st = (Inr [], st)"
| "addBooks (c # cs) st =
     (case addBook (a_title c) (a_author c) (a_isbn c) (a_category c) (a_copies c) st of
        (Inl e, st1) \<Rightarrow> (Inl e, st1)
      | (Inr r, st1) \<Rightarrow>
          (case addBooks cs st1 of
             (Inl e, st2) \<Rightarrow> (Inl e, st2)
           | (Inr rs, st2) \<Rightarrow> (Inr (r # rs), st2)))"

section \<open>A small library\<close>

text \<open>
  Three books, two categories, one open and one closed loan, loaded into a ready engine
  whose stored blob is in step with the live content. The theorems below are
  instantiated on it.
\<close>

definition dune :: book where
  "dune = \<lparr>bk_id = 1, bk_title = ''Dune'', bk_author = ''Frank Herbert'', bk_isbn = Some ''123'',
            bk_category = ''Fiction'', bk_copies = 2\<rparr>"

definition emma :: book where
  "emma = \<lparr>bk_id = 2, bk_title = ''Emma'', bk_author = ''Jane Austen'', bk_isbn = None,
            bk_category = '' fiction'', bk_copies = 0\<rparr>"

definition cosmos :: book where
  "cosmos = \<lparr>bk_id = 3, bk_title = ''Cosmos'', bk_author = ''Carl Sagan'', bk_isbn = Some ''456'',
              bk_category = ''Science'', bk_copies = 1\<rparr>"

definition demo_db :: database where
  "demo_db =
     \<lparr>books = [dune, emma, cosmos],
      categories =
        [\<lparr>cat_id = 1, cat_name = ''Fiction''\<rparr>, \<lparr>cat_id = 2, cat_name = ''Science''\<rparr>],
      borrows =
        [\<lparr>bw_id = 1, bw_book_id = 2, bw_borrower = ''Ada'', bw_date_out = ''2025-01-01'',
          bw_due_date = ''2025-01-15'', bw_return_date = None\<rparr>,
         \<lparr>bw_id = 2, bw_book_id = 1, bw_borrower = ''Bob'', bw_date_out = ''2025-01-02'',
          bw_due_date = ''2025-01-16'', bw_return_date = Some ''2025-01-10''\<rparr>],
      settings = []\<rparr>"

definition demo_handle :: handle where
  "demo_handle = \<lparr>tables = demo_db, snapshot = None, closed = False, last_rowid = 0\<rparr>"

definition demo :: engine where
  "demo = \<lparr>db = Some demo_handle, notadb = None, SQL = True, dirty = False,
            idb = Some (DbFile demo_db)\<rparr>"

text \<open>
  The same library with a third loan whose book does not exist: the rows before it, the
  row, and the engine holding all three.
\<close>

definition orphan :: borrow where
  "orphan =
     \<lparr>bw_id = 3, bw_book_id = 7, bw_borrower = ''Cy'', bw_date_out = ''2025-01-03'',
      bw_due_date = ''2025-01-15'', bw_return_date = None\<rparr>"

definition orphan_handle :: handle where
  "orphan_handle = demo_handle\<lparr>tables := demo_db\<lparr>borrows := borrows demo_db @ [orphan]\<rparr>\<rparr>"

definition orphan_engine :: engine where
  "orphan_engine = demo\<lparr>db := Some orphan_handle\<rparr>"

text \<open>The same new title entered twice, in different spelling.\<close>

definition solaris_calls :: "add_call list" where
  "solaris_calls =
     [\<lparr>a_title = ''Solaris'', a_author = ''Stanislaw Lem'', a_isbn = ''77'',
       a_category = ''Fiction'', a_copies = 2\<rparr>,
      \<lparr>a_title = '' SOLARIS '', a_author = ''S. Lem'', a_isbn = ''77 '',
       a_category = ''Science'', a_copies = 3\<rparr>]"

text \<open>
  Strings that end in a tab character, a title entered with and without it, and the
  library with a fourth book whose category is \<open>Fiction\<close> followed by a tab.
\<close>

definition tao_tab :: string where
  "tao_tab = ''Tao'' @ [CHR 0x09]"

definition fiction_tab :: string where
  "fiction_tab = ''Fiction'' @ [CHR 0x09]"

definition tab_calls :: "add_call list" where
  "tab_calls =
     [\<lparr>a_title = ''Tao'', a_author = ''Laozi'', a_isbn = ''9'', a_category = ''Science'',
       a_copies = 1\<rparr>,
      \<lparr>a_title = tao_tab, a_author = ''Laozi'', a_isbn = ''9'', a_category = ''Science'',
       a_copies = 2\<rparr>]"

definition guide :: book where
  "guide = \<lparr>bk_id = 4, bk_title = ''Guide'', bk_author = ''Ann Lee'', bk_isbn = None,
             bk_category = fiction_tab, bk_copies = 1\<rparr>"

definition tab_handle :: handle where
  "tab_handle = demo_handle\<lparr>tables := demo_db\<lparr>books := books demo_db @ [guide]\<rparr>\<rparr>"

definition tab_engine :: engine where
  "tab_engine = demo\<lparr>db := Some tab_handle, idb := Some (DbFile (tables tab_handle))\<rparr>"




section \<open>Engine lemmas\<close>

lemma live_SomeD: "live st = Some d \<Longrightarrow> \<exists>h. db st = Some h \<and> \<not> closed h \<and> tables h = d"
  by (auto simp: live_def split: option.splits if_splits)

lemma readyD: "ready st \<Longrightarrow> \<exists>h. db st = Some h \<and> \<not> closed h \<and> snapshot h = None"
  by (auto simp: ready_def split: option.splits)

lemma live_ready_handle:
  assumes "ready st" "live st = Some d"
  obtains h where "db st = Some h" "\<not> closed h" "snapshot h = None" "tables h = d"
  using assms by (auto simp: live_def ready_def split: option.splits if_splits)

lemma query_live: "live st = Some d \<Longrightarrow> query q st = Inr (q d)"
  by (auto simp: query_def h_exec_def dest!: live_SomeD)

lemma run_body_flags:
  "run_body fn h = (r, h') \<Longrightarrow> closed h' = closed h \<and> snapshot h' = snapshot h"
proof (induction fn arbitrary: h)
  case Return
  then show ?case by simp
next
  case (Raise e)
  then show ?case by simp
next
  case (Tx s k)
  show ?case
  proof (cases "closed h")
    case True
    with Tx.prems show ?thesis by (simp add: runInTx_def h_run_def)
  next
    case False
    obtain d n rid where s: "s (tables h) = (d, n, rid)" by (cases "s (tables h)")
    let ?h1 = "h\<lparr>tables := d, last_rowid := (case rid of None \<Rightarrow> last_rowid h | Some r \<Rightarrow> r)\<rparr>"
    from False s Tx.prems
    have "run_body (k \<lparr>changes = n, lastInsertRowid = last_rowid ?h1\<rparr>) ?h1 = (r, h')"
      by (simp add: runInTx_def h_run_def)
    from Tx.IH [OF _ this] show ?thesis by simp
  qed
qed

lemma run_body_two:
  assumes "\<not> closed h"
  shows "\<exists>h2. run_body (Tx s1 (\<lambda>_. Tx s2 (\<lambda>_. Return))) h = (Inr (), h2) \<and>
           tables h2 = fst (s2 (fst (s1 (tables h))))"
  using assms by (simp add: runInTx_def h_run_def split: prod.splits)

lemma transaction_commit:
  assumes "db st = Some h" "\<not> closed h" "snapshot h = None"
    and "run_body fn (h\<lparr>snapshot := Some (tables h)\<rparr>) = (Inr (), h2)"
  shows "transaction fn st =
           (Inr (), st\<lparr>db := Some (h2\<lparr>snapshot := None, last_rowid := 0\<rparr>), dirty := False,
                       idb := Some (DbFile (tables h2))\<rparr>)"
proof -
  from run_body_flags [OF assms(4)] assms(2)
  have f: "\<not> closed h2" "snapshot h2 = Some (tables h)" by simp_all
  show ?thesis
    using assms f
    by (simp add: transaction_def transaction_try_def h_begin_def h_commit_def persist_def
        h_export_def saveToIDB_def Let_def)
qed

lemma transaction_two:
  assumes "ready st" "live st = Some d"
  shows "\<exists>st'. transaction (Tx s1 (\<lambda>_. Tx s2 (\<lambda>_. Return))) st = (Inr (), st') \<and> ready st' \<and>
           live st' = Some (fst (s2 (fst (s1 d)))) \<and>
           idb st' = Some (DbFile (fst (s2 (fst (s1 d)))))"
proof -
  from assms obtain h where h: "db st = Some h" "\<not> closed h" "snapshot h = None" "tables h = d"
    by (rule live_ready_handle)
  let ?h1 = "h\<lparr>snapshot := Some (tables h)\<rparr>"
  from h(2) have "\<not> closed ?h1" by simp
  from run_body_two [OF this, of s1 s2] obtain h2
    where h2: "run_body (Tx s1 (\<lambda>_. Tx s2 (\<lambda>_. Return))) ?h1 = (Inr (), h2)"
      "tables h2 = fst (s2 (fst (s1 (tables ?h1))))" by blast
  from run_body_flags [OF h2(1)] h(2) have c: "\<not> closed h2" by simp
  from transaction_commit [OF h(1-3) h2(1)] h2(2) h(4) c
  show ?thesis by (simp add: ready_def live_def)
qed

lemma run_live:
  assumes "ready st" "live st = Some d"
  shows "\<exists>r st'. run s st = (Inr r, st') \<and> ready st' \<and> live st' = Some (fst (s d)) \<and>
           idb st' = Some (DbFile (fst (s d))) \<and>
           (\<forall>i. snd (snd (s d)) = Some i \<longrightarrow> lastInsertRowid r = i)"
proof -
  from assms obtain h where h: "db st = Some h" "\<not> closed h" "snapshot h = None" "tables h = d"
    by (rule live_ready_handle)
  obtain d' n rid where s: "s d = (d', n, rid)" by (cases "s d")
  with h show ?thesis
    by (simp add: run_def h_run_def persist_def h_export_def saveToIDB_def ready_def live_def
        Let_def)
qed

lemma ready_demo: "ready demo"
  by (simp add: ready_def demo_def demo_handle_def)

lemma live_demo: "live demo = Some demo_db"
  by (simp add: live_def demo_def demo_handle_def)

lemmas book_defs = dune_def emma_def cosmos_def

section \<open>Transactions and restore\<close>

text \<open>
  C2: a transaction on a ready engine whose body raises, after any number of its
  statements have run, rolls back and raises the same error again; afterwards the
  engine is ready, the live content is what it was before the transaction, and neither
  the stored blob nor the dirty flag has changed. The third hypothesis says that the body
  raises \<open>e\<close> when run on the handle as \<^verbatim>\<open>BEGIN\<close> leaves it.
\<close>

theorem transaction_rollback:
  assumes "ready st" and "db st = Some h"
    and "fst (run_body fn (h\<lparr>snapshot := Some (tables h)\<rparr>)) = Inl e"
  shows "\<exists>st'. transaction fn st = (Inl e, st') \<and> ready st' \<and> live st' = live st \<and>
           idb st' = idb st \<and> dirty st' = dirty st"
proof -
  let ?h1 = "h\<lparr>snapshot := Some (tables h)\<rparr>"
  from assms(1,2) have h: "\<not> closed h" "snapshot h = None"
    by (simp_all add: ready_def)
  then have g: "h_begin h = Inr ?h1"
    by (simp add: h_begin_def)
  obtain h2 where b: "run_body fn ?h1 = (Inl e, h2)"
    using assms(3) by (cases "run_body fn ?h1") simp
  from run_body_flags [OF b] h have f: "\<not> closed h2" "snapshot h2 = Some (tables h)"
    by simp_all
  let ?st' = "st\<lparr>db := Some (h2\<lparr>tables := tables h, snapshot := None\<rparr>)\<rparr>"
  have "transaction fn st = (Inl e, ?st')"
    using assms(2) g b f
    by (simp add: transaction_def transaction_try_def h_rollback_def)
  moreover have "ready ?st'" "live ?st' = live st" "idb ?st' = idb st" "dirty ?st' = dirty st"
    using assms(2) h f by (simp_all add: ready_def live_def)
  ultimately show ?thesis by blast
qed

theorem transaction_rollback_witness:
  "ready demo \<and> db demo = Some demo_handle \<and>
   run_body (Tx (sql_insert_borrow 1 ''Cy'' ''2025-02-01'' ''2025-02-15'')
               (\<lambda>_. Raise (BodyError ''boom'')))
     (demo_handle\<lparr>snapshot := Some (tables demo_handle)\<rparr>)
     = (Inl (BodyError ''boom''),
        \<lparr>tables = demo_db\<lparr>borrows := borrows demo_db @
             [\<lparr>bw_id = 3, bw_book_id = 1, bw_borrower = ''Cy'', bw_date_out = ''2025-02-01'',
               bw_due_date = ''2025-02-15'', bw_return_date = None\<rparr>]\<rparr>,
         snapshot = Some demo_db, closed = False, last_rowid = 3\<rparr>) \<and>
   (\<exists>st'. transaction (Tx (sql_insert_borrow 1 ''Cy'' ''2025-02-01'' ''2025-02-15'')
                          (\<lambda>_. Raise (BodyError ''boom''))) demo
            = (Inl (BodyError ''boom''), st') \<and>
      ready st' \<and> live st' = Some demo_db \<and> idb st' = Some (DbFile demo_db) \<and> \<not> dirty st')"
proof -
  let ?fn = "Tx (sql_insert_borrow 1 ''Cy'' ''2025-02-01'' ''2025-02-15'')
               (\<lambda>_. Raise (BodyError ''boom''))"
  have b: "db demo = Some demo_handle"
    by (simp add: demo_def)
  have i: "next_rowid (map bw_id (borrows demo_db)) = 3"
    by (simp add: next_rowid_def demo_db_def)
  have c: "run_body ?fn (demo_handle\<lparr>snapshot := Some (tables demo_handle)\<rparr>)
     = (Inl (BodyError ''boom''),
        \<lparr>tables = demo_db\<lparr>borrows := borrows demo_db @
             [\<lparr>bw_id = 3, bw_book_id = 1, bw_borrower = ''Cy'', bw_date_out = ''2025-02-01'',
               bw_due_date = ''2025-02-15'', bw_return_date = None\<rparr>]\<rparr>,
         snapshot = Some demo_db, closed = False, last_rowid = 3\<rparr>)"
    by (simp add: runInTx_def h_run_def demo_handle_def sql_insert_borrow_def i)
  then have d: "fst (run_body ?fn (demo_handle\<lparr>snapshot := Some (tables demo_handle)\<rparr>))
                  = Inl (BodyError ''boom'')"
    by simp
  from transaction_rollback [OF ready_demo b d] obtain st' where
    r: "transaction ?fn demo = (Inl (BodyError ''boom''), st')" "ready st'"
      "live st' = live demo" "idb st' = idb demo" "dirty st' = dirty demo"
    by (elim exE conjE)
  have "idb demo = Some (DbFile demo_db)" "\<not> dirty demo"
    by (simp_all add: demo_def)
  with r live_demo ready_demo b c show ?thesis
    by (intro conjI exI [of _ st']) simp_all
qed



section \<open>The repository layer: lemmas\<close>

lemma getBook_live:
  "live st = Some d \<Longrightarrow>
   getBook i st = Inr (case filter (\<lambda>b. bk_id b = i) (books d) of [] \<Rightarrow> None | r # _ \<Rightarrow> Some r)"
  by (simp add: getBook_def query_live)

lemma filter_id_update:
  assumes "\<And>b. bk_id (upd b) = bk_id b"
  shows "filter (\<lambda>b. bk_id b = i) (map (\<lambda>b. if wh b then upd b else b) bs)
         = map (\<lambda>b. if wh b then upd b else b) (filter (\<lambda>b. bk_id b = i) bs)"
  by (induction bs) (simp_all add: assms)

lemma fold_max_ge: "(x::int) \<le> fold max xs x"
proof (induction xs arbitrary: x)
  case Nil
  show ?case by simp
next
  case (Cons a xs)
  have "x \<le> max a x" by simp
  also have "\<dots> \<le> fold max xs (max a x)" by (rule Cons.IH)
  finally show ?case by simp
qed

lemma fold_max_mem: "y \<in> set xs \<Longrightarrow> (y::int) \<le> fold max xs x"
proof (induction xs arbitrary: x)
  case Nil
  then show ?case by simp
next
  case (Cons a xs)
  show ?case
  proof (cases "y = a")
    case True
    have "a \<le> max a x" by simp
    also have "\<dots> \<le> fold max xs (max a x)" by (rule fold_max_ge)
    finally show ?thesis using True by simp
  next
    case False
    with Cons.prems have "y \<in> set xs" by simp
    from Cons.IH [OF this] show ?thesis by simp
  qed
qed

lemma next_rowid_fresh: "y \<in> set ids \<Longrightarrow> y < next_rowid ids"
proof (cases ids)
  case Nil
  then show "y \<in> set ids \<Longrightarrow> ?thesis" by simp
next
  case (Cons x xs)
  assume "y \<in> set ids"
  with Cons have "y = x \<or> y \<in> set xs" by auto
  then have "y \<le> fold max xs x"
    using fold_max_ge [of x xs] fold_max_mem [of y xs x] by auto
  with Cons show ?thesis by (simp add: next_rowid_def)
qed

lemma recordBorrow_ok:
  assumes "ready st" and "live st = Some d"
    and "getBook bookId st = Inr (Some book)" and "1 \<le> bk_copies book"
  shows "\<exists>st' d'. recordBorrow bookId borrower dateOut dueDate st = (Inr (), st') \<and>
               ready st' \<and> live st' = Some d' \<and> idb st' = Some (DbFile d') \<and>
               borrows d' = borrows d @
                 [\<lparr>bw_id = next_rowid (map bw_id (borrows d)), bw_book_id = bookId,
                   bw_borrower = borrower, bw_date_out = dateOut, bw_due_date = dueDate,
                   bw_return_date = None\<rparr>] \<and>
               books d' = map (\<lambda>b. if bk_id b = bookId
                                    then b\<lparr>bk_copies := bk_copies b - 1\<rparr> else b) (books d) \<and>
               getBook bookId st' = Inr (Some (book\<lparr>bk_copies := bk_copies book - 1\<rparr>)) \<and>
               categories d' = categories d \<and> settings d' = settings d"
proof -
  let ?s1 = "sql_insert_borrow bookId borrower dateOut dueDate"
  let ?upd = "\<lambda>b. b\<lparr>bk_copies := bk_copies b - 1\<rparr>"
  let ?s2 = "sql_update_books (\<lambda>b. bk_id b = bookId) ?upd"
  from transaction_two [OF assms(1,2), of ?s1 ?s2] obtain st'
    where t: "transaction (Tx ?s1 (\<lambda>_. Tx ?s2 (\<lambda>_. Return))) st = (Inr (), st')" "ready st'"
      "live st' = Some (fst (?s2 (fst (?s1 d))))" "idb st' = Some (DbFile (fst (?s2 (fst (?s1 d)))))"
    by blast
  let ?d' = "fst (?s2 (fst (?s1 d)))"
  have bks: "books ?d' = map (\<lambda>b. if bk_id b = bookId then ?upd b else b) (books d)"
    by (simp add: sql_insert_borrow_def sql_update_books_def Let_def)
  from assms(3) obtain rest where f: "filter (\<lambda>b. bk_id b = bookId) (books d) = book # rest"
    by (auto simp: getBook_live [OF assms(2)] split: list.splits)
  then have "book \<in> set (filter (\<lambda>b. bk_id b = bookId) (books d))" by simp
  then have bid: "bk_id book = bookId" by simp
  have "filter (\<lambda>b. bk_id b = bookId) (books ?d')
        = map (\<lambda>b. if bk_id b = bookId then ?upd b else b) (book # rest)"
    unfolding bks by (subst filter_id_update) (simp_all add: f)
  then have g: "getBook bookId st' = Inr (Some (?upd book))"
    by (simp add: getBook_live [OF t(3)] bid)
  show ?thesis
  proof (intro exI [of _ st'] exI [of _ ?d'] conjI)
    show "recordBorrow bookId borrower dateOut dueDate st = (Inr (), st')"
      using assms(3,4) t(1) by (simp add: recordBorrow_def)
  qed (use t g bks in \<open>simp_all add: sql_insert_borrow_def sql_update_books_def Let_def\<close>)
qed

section \<open>Borrowing and returning\<close>



text \<open>
  C5: after a successful \<^verbatim>\<open>recordBorrow\<close>, returning that same loan (the row just
  inserted, with the same book id) succeeds and leaves the books table, and so the
  copies of the book, exactly as before the borrow; the loan row is now closed.
\<close>

theorem borrow_return_roundtrip:
  assumes "ready st" and "live st = Some d"
    and "recordBorrow bookId borrower dateOut dueDate st = (Inr (), st1)"
  shows "\<exists>st2 d2. recordReturn (next_rowid (map bw_id (borrows d))) bookId returnDate st1
                     = (Inr (), st2) \<and>
           live st2 = Some d2 \<and> books d2 = books d \<and>
           getBook bookId st2 = getBook bookId st \<and>
           borrows d2 = borrows d @
             [\<lparr>bw_id = next_rowid (map bw_id (borrows d)), bw_book_id = bookId,
               bw_borrower = borrower, bw_date_out = dateOut, bw_due_date = dueDate,
               bw_return_date = Some returnDate\<rparr>]"
proof -
  let ?new = "next_rowid (map bw_id (borrows d))"
  from assms(3) obtain book where bk: "getBook bookId st = Inr (Some book)" "1 \<le> bk_copies book"
    by (auto simp: recordBorrow_def split: sum.splits option.splits if_splits)
  from recordBorrow_ok [OF assms(1,2) bk, of borrower dateOut dueDate] assms(3)
  obtain d1 where s1: "ready st1" "live st1 = Some d1"
    "borrows d1 = borrows d @
       [\<lparr>bw_id = ?new, bw_book_id = bookId, bw_borrower = borrower, bw_date_out = dateOut,
         bw_due_date = dueDate, bw_return_date = None\<rparr>]"
    "books d1 = map (\<lambda>b. if bk_id b = bookId then b\<lparr>bk_copies := bk_copies b - 1\<rparr> else b) (books d)"
    by auto
  let ?r1 = "sql_update_borrows (\<lambda>b. bw_id b = ?new) (\<lambda>b. b\<lparr>bw_return_date := Some returnDate\<rparr>)"
  let ?r2 = "sql_update_books (\<lambda>b. bk_id b = bookId) (\<lambda>b. b\<lparr>bk_copies := bk_copies b + 1\<rparr>)"
  let ?d2 = "fst (?r2 (fst (?r1 d1)))"
  from transaction_two [OF s1(1,2), of ?r1 ?r2] obtain st2
    where t: "recordReturn ?new bookId returnDate st1 = (Inr (), st2)" "live st2 = Some ?d2"
    by (auto simp: recordReturn_def)
  have old: "map (\<lambda>b. if bw_id b = ?new then b\<lparr>bw_return_date := Some returnDate\<rparr> else b) (borrows d)
             = borrows d"
  proof (rule map_idI)
    fix b assume "b \<in> set (borrows d)"
    then have "bw_id b \<in> set (map bw_id (borrows d))" by simp
    from next_rowid_fresh [OF this]
    show "(if bw_id b = ?new then b\<lparr>bw_return_date := Some returnDate\<rparr> else b) = b" by simp
  qed
  have bw: "borrows ?d2 = borrows d @
             [\<lparr>bw_id = ?new, bw_book_id = bookId, bw_borrower = borrower, bw_date_out = dateOut,
               bw_due_date = dueDate, bw_return_date = Some returnDate\<rparr>]"
    by (simp add: sql_update_borrows_def sql_update_books_def s1(3) old)
  have bo: "books ?d2 = books d"
    by (simp add: sql_update_borrows_def sql_update_books_def s1(4) o_def) (rule map_idI, simp)
  have "getBook bookId st2 = getBook bookId st"
    by (simp add: getBook_live [OF t(2)] getBook_live [OF assms(2)] bo)
  with t bw bo show ?thesis by blast
qed

theorem borrow_return_roundtrip_witness:
  "ready demo \<and> live demo = Some demo_db \<and>
   recordBorrow 1 ''Cy'' ''2025-02-01'' ''2025-02-15'' demo
     = (Inr (), snd (recordBorrow 1 ''Cy'' ''2025-02-01'' ''2025-02-15'' demo)) \<and>
   getBook 1 demo = Inr (Some dune) \<and>
   getBook 1 (snd (recordBorrow 1 ''Cy'' ''2025-02-01'' ''2025-02-15'' demo))
     = Inr (Some (dune\<lparr>bk_copies := 1\<rparr>)) \<and>
   (\<exists>st2 d2. recordReturn 3 1 ''2025-02-10''
                (snd (recordBorrow 1 ''Cy'' ''2025-02-01'' ''2025-02-15'' demo)) = (Inr (), st2) \<and>
      live st2 = Some d2 \<and> books d2 = books demo_db \<and> getBook 1 st2 = Inr (Some dune))"
proof -
  let ?st1 = "snd (recordBorrow 1 ''Cy'' ''2025-02-01'' ''2025-02-15'' demo)"
  have g: "getBook 1 demo = Inr (Some dune)" "1 \<le> bk_copies dune"
    by (simp_all add: getBook_live [OF live_demo] demo_db_def book_defs)
  from recordBorrow_ok [OF ready_demo live_demo g, of "''Cy''" "''2025-02-01''" "''2025-02-15''"]
  have b: "recordBorrow 1 ''Cy'' ''2025-02-01'' ''2025-02-15'' demo = (Inr (), ?st1)"
    and g1: "getBook 1 ?st1 = Inr (Some (dune\<lparr>bk_copies := 1\<rparr>))"
    by (auto simp: dune_def)
  have i: "next_rowid (map bw_id (borrows demo_db)) = 3"
    by (simp add: next_rowid_def demo_db_def)
  from borrow_return_roundtrip [OF ready_demo live_demo b, of "''2025-02-10''"]
  obtain st2 d2 where
    r: "recordReturn 3 1 ''2025-02-10'' ?st1 = (Inr (), st2)" "live st2 = Some d2"
      "books d2 = books demo_db" "getBook 1 st2 = getBook 1 demo"
    unfolding i by blast
  with g(1) g1 b ready_demo live_demo show ?thesis
    by (intro conjI exI [of _ st2] exI [of _ d2]) simp_all
qed

text \<open>
  C8: \<^verbatim>\<open>recordReturn\<close> on a ready engine always succeeds: the loan with the given id
  gets the given \<open>return_date\<close> whatever it held before, and the book with the given id
  gets one more copy, both in one committed and stored transaction. Nothing in the
  statement depends on the loan being open.
\<close>

theorem recordReturn_effect:
  assumes "ready st" and "live st = Some d"
  shows "\<exists>st' d'. recordReturn borrowId bookId returnDate st = (Inr (), st') \<and>
           ready st' \<and> live st' = Some d' \<and> idb st' = Some (DbFile d') \<and>
           borrows d' = map (\<lambda>b. if bw_id b = borrowId
                                  then b\<lparr>bw_return_date := Some returnDate\<rparr> else b) (borrows d) \<and>
           books d' = map (\<lambda>b. if bk_id b = bookId
                                then b\<lparr>bk_copies := bk_copies b + 1\<rparr> else b) (books d) \<and>
           categories d' = categories d \<and> settings d' = settings d"
proof -
  let ?s1 = "sql_update_borrows (\<lambda>b. bw_id b = borrowId) (\<lambda>b. b\<lparr>bw_return_date := Some returnDate\<rparr>)"
  let ?s2 = "sql_update_books (\<lambda>b. bk_id b = bookId) (\<lambda>b. b\<lparr>bk_copies := bk_copies b + 1\<rparr>)"
  from transaction_two [OF assms, of ?s1 ?s2] obtain st'
    where t: "transaction (Tx ?s1 (\<lambda>_. Tx ?s2 (\<lambda>_. Return))) st = (Inr (), st')" "ready st'"
      "live st' = Some (fst (?s2 (fst (?s1 d))))" "idb st' = Some (DbFile (fst (?s2 (fst (?s1 d)))))"
    by blast
  show ?thesis
    using t by (simp add: recordReturn_def sql_update_borrows_def sql_update_books_def)
qed

theorem recordReturn_effect_witness:
  "ready demo \<and> live demo = Some demo_db \<and>
   (\<exists>st' d'. recordReturn 2 1 ''2025-03-01'' demo = (Inr (), st') \<and> live st' = Some d' \<and>
      idb st' = Some (DbFile d') \<and>
      map bw_return_date (borrows demo_db) = [None, Some ''2025-01-10''] \<and>
      map bw_return_date (borrows d') = [None, Some ''2025-03-01''] \<and>
      map bk_copies (books demo_db) = [2, 0, 1] \<and>
      map bk_copies (books d') = [3, 0, 1])"
proof -
  from recordReturn_effect [OF ready_demo live_demo, of 2 1 "''2025-03-01''"]
  obtain st' d' where
    r: "recordReturn 2 1 ''2025-03-01'' demo = (Inr (), st')" "live st' = Some d'"
      "idb st' = Some (DbFile d')"
      "borrows d' = map (\<lambda>b. if bw_id b = 2 then b\<lparr>bw_return_date := Some ''2025-03-01''\<rparr> else b)
                      (borrows demo_db)"
      "books d' = map (\<lambda>b. if bk_id b = 1 then b\<lparr>bk_copies := bk_copies b + 1\<rparr> else b)
                    (books demo_db)"
    by blast
  have "map bw_return_date (borrows demo_db) = [None, Some ''2025-01-10'']"
    by (simp add: demo_db_def)
  moreover have "map bw_return_date (borrows d') = [None, Some ''2025-03-01'']"
    by (simp add: r(4) demo_db_def)
  moreover have "map bk_copies (books demo_db) = [2, 0, 1]"
    by (simp add: demo_db_def book_defs)
  moreover have "map bk_copies (books d') = [3, 0, 1]"
    by (simp add: r(5) demo_db_def book_defs)
  ultimately show ?thesis using ready_demo live_demo r(1-3)
    by (intro conjI exI [of _ st'] exI [of _ d']) simp_all
qed

section \<open>Renaming a category\<close>

lemma find_filter_hd: "find P xs = (case filter P xs of [] \<Rightarrow> None | x # _ \<Rightarrow> Some x)"
  by (induction xs) simp_all

text \<open>
  C6, with the comparison the code makes: a successful \<^verbatim>\<open>updateCategory\<close> gives the
  category row the new name and sets the category of every book whose category equals
  the old name under \<^verbatim>\<open>LOWER(TRIM(.))\<close> (space characters trimmed, A to Z folded) to
  the new name; every other book, and every other table, is unchanged, and the stored
  blob holds both updates.
\<close>

theorem updateCategory_effect:
  assumes "ready st" and "live st = Some d"
    and "updateCategory cid newName st = (Inr (), st')"
  shows "\<exists>old d'. find (\<lambda>c. cat_id c = cid) (categories d) = Some old \<and>
           ready st' \<and> live st' = Some d' \<and> idb st' = Some (DbFile d') \<and>
           categories d' = map (\<lambda>c. if cat_id c = cid then c\<lparr>cat_name := newName\<rparr> else c)
                             (categories d) \<and>
           books d' = map (\<lambda>b. if lower_trim (bk_category b) = lower_trim (cat_name old)
                                then b\<lparr>bk_category := newName\<rparr> else b) (books d) \<and>
           borrows d' = borrows d \<and> settings d' = settings d"
proof -
  from assms(3) obtain old rest where
    o: "filter (\<lambda>c. cat_id c = cid) (categories d) = old # rest"
    by (auto simp: updateCategory_def query_live [OF assms(2)] split: list.splits)
  let ?s1 = "sql_update_categories (\<lambda>c. cat_id c = cid) (\<lambda>c. c\<lparr>cat_name := newName\<rparr>)"
  let ?s2 = "sql_update_books (\<lambda>b. lower_trim (bk_category b) = lower_trim (cat_name old))
               (\<lambda>b. b\<lparr>bk_category := newName\<rparr>)"
  let ?d' = "fst (?s2 (fst (?s1 d)))"
  from assms(3) o have "transaction (Tx ?s1 (\<lambda>_. Tx ?s2 (\<lambda>_. Return))) st = (Inr (), st')"
    by (auto simp: updateCategory_def query_live [OF assms(2)] split: list.splits)
  with transaction_two [OF assms(1,2), of ?s1 ?s2]
  have t: "ready st'" "live st' = Some ?d'" "idb st' = Some (DbFile ?d')" by auto
  have "find (\<lambda>c. cat_id c = cid) (categories d) = Some old"
    by (simp add: find_filter_hd o)
  with t show ?thesis
    by (intro exI [of _ old] exI [of _ ?d'])
      (simp add: sql_update_categories_def sql_update_books_def)
qed

theorem updateCategory_effect_witness:
  "ready demo \<and> live demo = Some demo_db \<and>
   updateCategory 1 ''Novels'' demo = (Inr (), snd (updateCategory 1 ''Novels'' demo)) \<and>
   map bk_category (books demo_db) = [''Fiction'', '' fiction'', ''Science''] \<and>
   (\<exists>d'. live (snd (updateCategory 1 ''Novels'' demo)) = Some d' \<and>
      idb (snd (updateCategory 1 ''Novels'' demo)) = Some (DbFile d') \<and>
      map cat_name (categories d') = [''Novels'', ''Science''] \<and>
      map bk_category (books d') = [''Novels'', ''Novels'', ''Science''] \<and>
      map bk_copies (books d') = map bk_copies (books demo_db))"
proof -
  let ?st' = "snd (updateCategory 1 ''Novels'' demo)"
  have "fst (updateCategory 1 ''Novels'' demo) = Inr ()"
    by code_simp
  then have u: "updateCategory 1 ''Novels'' demo = (Inr (), ?st')"
    by (simp add: prod_eq_iff)
  have c: "map bk_category (books demo_db) = [''Fiction'', '' fiction'', ''Science'']"
    by (simp add: demo_db_def book_defs)
  from updateCategory_effect [OF ready_demo live_demo u]
  obtain old d' where
    r: "find (\<lambda>c. cat_id c = 1) (categories demo_db) = Some old" "live ?st' = Some d'"
      "idb ?st' = Some (DbFile d')"
      "categories d' = map (\<lambda>c. if cat_id c = 1 then c\<lparr>cat_name := ''Novels''\<rparr> else c)
                         (categories demo_db)"
      "books d' = map (\<lambda>b. if lower_trim (bk_category b) = lower_trim (cat_name old)
                            then b\<lparr>bk_category := ''Novels''\<rparr> else b) (books demo_db)"
    by blast
  from r(1) have old: "cat_name old = ''Fiction''"
    by (auto simp: demo_db_def)
  have 1: "map cat_name (categories d') = [''Novels'', ''Science'']"
    by (simp add: r(4) demo_db_def)
  have n: "lower_trim ''Fiction'' = ''fiction''" "lower_trim '' fiction'' = ''fiction''"
    "lower_trim ''Science'' = ''science''"
    by code_simp+
  have 2: "map bk_category (books d') = [''Novels'', ''Novels'', ''Science'']"
    by (simp add: r(5) old demo_db_def book_defs n)
  have 3: "map bk_copies (books d') = map bk_copies (books demo_db)"
    by (simp add: r(5) old demo_db_def book_defs n)
  from u c r(2,3) 1 2 3 ready_demo live_demo show ?thesis
    by (intro conjI exI [of _ d']) simp_all
qed

text \<open>
  The wording ``equals the old name under case/whitespace-normalized comparison'' is
  wider than what the rename compares: a book whose category is \<open>Fiction\<close> followed by a
  tab equals the category \<open>Fiction\<close> in those words, yet it keeps its category when that
  category is renamed.
\<close>

theorem updateCategory_effect_counterexample:
  "map_option (map cat_name) (map_option categories (live tab_engine))
     = Some [''Fiction'', ''Science''] \<and>
   map_option (map bk_category) (map_option books (live tab_engine))
     = Some [''Fiction'', '' fiction'', ''Science'', fiction_tab] \<and>
   spec_normalize fiction_tab = spec_normalize ''Fiction'' \<and>
   fst (updateCategory 1 ''Novels'' tab_engine) = Inr () \<and>
   map_option (map bk_category)
     (map_option books (live (snd (updateCategory 1 ''Novels'' tab_engine))))
     = Some [''Novels'', ''Novels'', ''Science'', fiction_tab]"
  by (intro conjI; code_simp)














text \<open>
  Distinct keys and distinct names under \<^verbatim>\<open>LOWER(TRIM(.))\<close> are kept by the two
  operations that write category names, so a library that starts with them never
  loses them.
\<close>

lemma rename_keeps_names_distinct:
  assumes "distinct (map cat_id cs)"
    and "distinct (map (\<lambda>c. lower_trim (cat_name c)) cs)"
    and "\<forall>c\<in>set cs. lower_trim (cat_name c) = lower_trim newName \<longrightarrow> cat_id c = cid"
  shows "distinct (map (\<lambda>c. lower_trim (cat_name c))
           (map (\<lambda>c. if cat_id c = cid then c\<lparr>cat_name := newName\<rparr> else c) cs))"
  using assms
proof (induction cs)
  case Nil
  show ?case by simp
next
  case (Cons a cs)
  let ?f = "\<lambda>c. if cat_id c = cid then c\<lparr>cat_name := newName\<rparr> else c"
  from Cons.prems have ih: "distinct (map (\<lambda>c. lower_trim (cat_name c)) (map ?f cs))"
    by (intro Cons.IH) simp_all
  have nin: "lower_trim (cat_name (?f a)) \<notin> set (map (\<lambda>c. lower_trim (cat_name c)) (map ?f cs))"
  proof
    assume "lower_trim (cat_name (?f a)) \<in> set (map (\<lambda>c. lower_trim (cat_name c)) (map ?f cs))"
    then obtain c where c: "c \<in> set cs" "lower_trim (cat_name (?f a)) = lower_trim (cat_name (?f c))"
      by auto
    from Cons.prems(1) have "cat_id a \<notin> cat_id ` set cs" by simp
    with c(1) have ne: "cat_id c \<noteq> cat_id a" by (metis imageI)
    from Cons.prems(2) have "lower_trim (cat_name a) \<notin> (\<lambda>c. lower_trim (cat_name c)) ` set cs"
      by simp
    with c(1) have nn: "lower_trim (cat_name c) \<noteq> lower_trim (cat_name a)" by (metis imageI)
    show False
    proof (cases "cat_id a = cid")
      case True
      with ne have "cat_id c \<noteq> cid" by simp
      with c(2) True have "lower_trim (cat_name c) = lower_trim newName" by simp
      with Cons.prems(3) c(1) have "cat_id c = cid" by simp
      with \<open>cat_id c \<noteq> cid\<close> show False by simp
    next
      case False
      show False
      proof (cases "cat_id c = cid")
        case True
        with c(2) False have "lower_trim (cat_name a) = lower_trim newName" by simp
        with Cons.prems(3) have "cat_id a = cid" by simp
        with False show False by simp
      next
        case False
        with c(2) \<open>cat_id a \<noteq> cid\<close> nn show False by simp
      qed
    qed
  qed
  from nin ih
  have "distinct (lower_trim (cat_name (?f a)) # map (\<lambda>c. lower_trim (cat_name c)) (map ?f cs))"
    by (simp only: distinct.simps simp_thms)
  then show ?case by (simp only: list.map)
qed

lemma updateCategory_keeps_invariant:
  assumes "ready st" and "live st = Some d"
    and "distinct (map cat_id (categories d))"
    and "distinct (map (\<lambda>c. lower_trim (cat_name c)) (categories d))"
    and "updateCategory cid newName st = (Inr (), st')"
  shows "\<exists>d'. live st' = Some d' \<and> distinct (map cat_id (categories d')) \<and>
           distinct (map (\<lambda>c. lower_trim (cat_name c)) (categories d'))"
proof -
  from assms(5) have dup: "filter (\<lambda>c. lower_trim (cat_name c) = lower_trim newName \<and> cat_id c \<noteq> cid)
                            (categories d) = []"
    by (auto simp: updateCategory_def query_live [OF assms(2)] split: list.splits)
  then have g: "\<forall>c\<in>set (categories d). lower_trim (cat_name c) = lower_trim newName \<longrightarrow> cat_id c = cid"
    by (auto simp: filter_empty_conv)
  from assms(5) obtain old rest where
    o: "filter (\<lambda>c. cat_id c = cid) (categories d) = old # rest"
    by (auto simp: updateCategory_def query_live [OF assms(2)] split: list.splits)
  let ?s1 = "sql_update_categories (\<lambda>c. cat_id c = cid) (\<lambda>c. c\<lparr>cat_name := newName\<rparr>)"
  let ?s2 = "sql_update_books (\<lambda>b. lower_trim (bk_category b) = lower_trim (cat_name old))
               (\<lambda>b. b\<lparr>bk_category := newName\<rparr>)"
  let ?d' = "fst (?s2 (fst (?s1 d)))"
  from assms(5) dup o have "transaction (Tx ?s1 (\<lambda>_. Tx ?s2 (\<lambda>_. Return))) st = (Inr (), st')"
    by (simp add: updateCategory_def query_live [OF assms(2)])
  with transaction_two [OF assms(1,2), of ?s1 ?s2] have l: "live st' = Some ?d'" by auto
  have c: "categories ?d' = map (\<lambda>c. if cat_id c = cid then c\<lparr>cat_name := newName\<rparr> else c)
                              (categories d)"
    by (simp add: sql_update_categories_def sql_update_books_def)
  have "map cat_id (categories ?d') = map cat_id (categories d)"
    unfolding c by (induction "categories d") simp_all
  with assms(3) have 1: "distinct (map cat_id (categories ?d'))" by simp
  from rename_keeps_names_distinct [OF assms(3,4) g]
  have 2: "distinct (map (\<lambda>c. lower_trim (cat_name c)) (categories ?d'))"
    unfolding c .
  from l 1 2 show ?thesis by blast
qed

lemma addCategory_keeps_invariant:
  assumes "ready st" and "live st = Some d"
    and "distinct (map cat_id (categories d))"
    and "distinct (map (\<lambda>c. lower_trim (cat_name c)) (categories d))"
    and "addCategory name st = (Inr i, st')"
  shows "\<exists>d'. live st' = Some d' \<and> distinct (map cat_id (categories d')) \<and>
           distinct (map (\<lambda>c. lower_trim (cat_name c)) (categories d'))"
proof -
  from assms(5) have e: "filter (\<lambda>c. lower_trim (cat_name c) = lower_trim name) (categories d) = []"
    by (auto simp: addCategory_def query_live [OF assms(2)] split: list.splits)
  then have n: "lower_trim name \<notin> (\<lambda>c. lower_trim (cat_name c)) ` set (categories d)"
    by (auto simp: filter_empty_conv)
  let ?s = "sql_insert_category name"
  from run_live [OF assms(1,2), of ?s] obtain r st1
    where r: "run ?s st = (Inr r, st1)" "live st1 = Some (fst (?s d))" by blast
  with assms(5) e have l: "live st' = Some (fst (?s d))"
    by (simp add: addCategory_def query_live [OF assms(2)])
  have f: "next_rowid (map cat_id (categories d)) \<notin> set (map cat_id (categories d))"
    using next_rowid_fresh [of "next_rowid (map cat_id (categories d))" "map cat_id (categories d)"]
    by auto
  have c: "categories (fst (?s d)) = categories d @
             [\<lparr>cat_id = next_rowid (map cat_id (categories d)), cat_name = name\<rparr>]"
    by (simp add: sql_insert_category_def Let_def)
  from assms(3) f have 1: "distinct (map cat_id (categories (fst (?s d))))"
    unfolding c by simp
  from assms(4) n have 2: "distinct (map (\<lambda>c. lower_trim (cat_name c)) (categories (fst (?s d))))"
    unfolding c by simp
  from l 1 2 show ?thesis by blast
qed

section \<open>Deleting a book\<close>

text \<open>
  C7: \<^verbatim>\<open>deleteBook\<close> on a ready engine. If some loan of the book is open it fails
  with \<open>BookHasActiveLoans\<close> and the engine is unchanged; otherwise the rows of the
  book are deleted and the loans table, closed loans of that book included, is as
  before.
\<close>

theorem deleteBook_cases:
  assumes "ready st" and "live st = Some d"
  shows "((\<exists>b\<in>set (borrows d). bw_book_id b = bid \<and> bw_return_date b = None) \<longrightarrow>
            deleteBook bid st = (Inl BookHasActiveLoans, st)) \<and>
         ((\<forall>b\<in>set (borrows d). bw_book_id b = bid \<longrightarrow> bw_return_date b \<noteq> None) \<longrightarrow>
            (\<exists>st' d'. deleteBook bid st = (Inr (), st') \<and> ready st' \<and> live st' = Some d' \<and>
               idb st' = Some (DbFile d') \<and>
               books d' = filter (\<lambda>b. bk_id b \<noteq> bid) (books d) \<and>
               borrows d' = borrows d \<and> categories d' = categories d \<and>
               settings d' = settings d))"
proof (intro conjI impI)
  assume "\<exists>b\<in>set (borrows d). bw_book_id b = bid \<and> bw_return_date b = None"
  then have "filter (\<lambda>b. bw_book_id b = bid \<and> bw_return_date b = None) (borrows d) \<noteq> []"
    by (auto simp: filter_empty_conv)
  then show "deleteBook bid st = (Inl BookHasActiveLoans, st)"
    by (simp add: deleteBook_def query_live [OF assms(2)])
next
  assume "\<forall>b\<in>set (borrows d). bw_book_id b = bid \<longrightarrow> bw_return_date b \<noteq> None"
  then have e: "filter (\<lambda>b. bw_book_id b = bid \<and> bw_return_date b = None) (borrows d) = []"
    by (auto simp: filter_empty_conv)
  let ?s = "sql_delete_books (\<lambda>b. bk_id b = bid)"
  from run_live [OF assms, of ?s] obtain r st'
    where r: "run ?s st = (Inr r, st')" "ready st'" "live st' = Some (fst (?s d))"
      "idb st' = Some (DbFile (fst (?s d)))" by blast
  from r(1) e have "deleteBook bid st = (Inr (), st')"
    by (simp add: deleteBook_def query_live [OF assms(2)])
  with r show "\<exists>st' d'. deleteBook bid st = (Inr (), st') \<and> ready st' \<and> live st' = Some d' \<and>
               idb st' = Some (DbFile d') \<and>
               books d' = filter (\<lambda>b. bk_id b \<noteq> bid) (books d) \<and>
               borrows d' = borrows d \<and> categories d' = categories d \<and>
               settings d' = settings d"
    by (intro exI [of _ st'] exI [of _ "fst (?s d)"]) (simp add: sql_delete_books_def)
qed

theorem deleteBook_cases_witness:
  "ready demo \<and> live demo = Some demo_db \<and>
   (\<exists>b\<in>set (borrows demo_db). bw_book_id b = 2 \<and> bw_return_date b = None) \<and>
   deleteBook 2 demo = (Inl BookHasActiveLoans, demo) \<and>
   list_all (\<lambda>b. bw_book_id b = 1 \<longrightarrow> bw_return_date b \<noteq> None) (borrows demo_db) \<and>
   (\<exists>st' d'. deleteBook 1 demo = (Inr (), st') \<and> live st' = Some d' \<and>
      idb st' = Some (DbFile d') \<and> books d' = [emma, cosmos] \<and>
      borrows d' = borrows demo_db \<and> map bw_book_id (borrows d') = [2, 1])"
proof -
  note c = deleteBook_cases [OF ready_demo live_demo]
  have a: "\<exists>b\<in>set (borrows demo_db). bw_book_id b = 2 \<and> bw_return_date b = None"
    by (simp add: demo_db_def)
  with c [of 2] have 1: "deleteBook 2 demo = (Inl BookHasActiveLoans, demo)" by blast
  have b: "\<forall>b\<in>set (borrows demo_db). bw_book_id b = 1 \<longrightarrow> bw_return_date b \<noteq> None"
    by (simp add: demo_db_def)
  with c [of 1] obtain st' d' where
    r: "deleteBook 1 demo = (Inr (), st')" "live st' = Some d'" "idb st' = Some (DbFile d')"
      "books d' = filter (\<lambda>b. bk_id b \<noteq> 1) (books demo_db)" "borrows d' = borrows demo_db"
    by blast
  have 2: "books d' = [emma, cosmos]"
    by (simp add: r(4) demo_db_def book_defs)
  have 3: "map bw_book_id (borrows d') = [2, 1]"
    by (simp add: r(5) demo_db_def)
  from a 1 b r(1-3,5) 2 3 ready_demo live_demo show ?thesis
    unfolding list_all_iff
    by (intro conjI exI [of _ st'] exI [of _ d']) simp_all
qed

section \<open>Loans of a missing book in the reports\<close>

lemma join_dangling:
  assumes "bw_book_id r \<notin> bk_id ` set (books d)"
  shows "borrows_join_books (d\<lparr>borrows := xs @ r # ys\<rparr>) = borrows_join_books (d\<lparr>borrows := xs @ ys\<rparr>)"
proof -
  from assms have "\<forall>bk\<in>set (books d). bk_id bk \<noteq> bw_book_id r"
    by force
  then have "filter (\<lambda>bk. bk_id bk = bw_book_id r) (books d) = []"
    by (simp add: filter_empty_conv)
  then show ?thesis by (simp add: borrows_join_books_def)
qed

lemma join_book_ids: "p \<in> set (borrows_join_books d) \<Longrightarrow> snd p \<in> set (books d)"
  by (auto simp: borrows_join_books_def)

text \<open>
  C9: a loan row \<open>r\<close> whose \<open>book_id\<close> is the id of no book. Compared with the same
  engine without that row, \<^verbatim>\<open>getAllBorrows\<close> returns the same rows for every search
  term, none of them with the book id of \<open>r\<close>, and \<^verbatim>\<open>getStats\<close> returns the same
  \<open>topBooks\<close> and \<open>dueToday\<close>; but \<open>activeLoans\<close>, \<open>returnedLoans\<close> and
  \<open>overdueCount\<close> each count \<open>r\<close> when it meets their condition.
\<close>

theorem dangling_borrow_reports:
  assumes "db st = Some h" and "\<not> closed h"
    and "borrows (tables h) = xs @ r # ys"
    and "bw_book_id r \<notin> bk_id ` set (books (tables h))"
  shows "let st0 = st\<lparr>db := Some (h\<lparr>tables := (tables h)\<lparr>borrows := xs @ ys\<rparr>\<rparr>)\<rparr> in
           getAllBorrows search st = getAllBorrows search st0 \<and>
           (\<forall>rows. getAllBorrows search st = Inr rows \<longrightarrow>
              (\<forall>row\<in>set rows. r_book_id row \<noteq> bw_book_id r)) \<and>
           (\<exists>s s0. getStats today st = Inr s \<and> getStats today st0 = Inr s0 \<and>
              topBooks s = topBooks s0 \<and> dueToday s = dueToday s0 \<and>
              activeLoans s = activeLoans s0 + (if bw_return_date r = None then 1 else 0) \<and>
              returnedLoans s = returnedLoans s0 + (if bw_return_date r \<noteq> None then 1 else 0) \<and>
              overdueCount s = overdueCount s0 +
                (if bw_return_date r = None \<and> bw_due_date r < today then 1 else 0))"
proof -
  let ?d = "tables h"
  let ?e = "?d\<lparr>borrows := xs @ ys\<rparr>"
  let ?ste = "st\<lparr>db := Some (h\<lparr>tables := ?e\<rparr>)\<rparr>"
  have d: "?d = ?d\<lparr>borrows := xs @ r # ys\<rparr>"
    by (subst assms(3) [symmetric]) simp
  have j: "borrows_join_books ?d = borrows_join_books ?e"
    by (subst d) (rule join_dangling [OF assms(4)])
  have q: "\<And>q. query q st = Inr (q ?d)" "\<And>q. query q ?ste = Inr (q ?e)"
    using assms(1,2) by (simp_all add: query_def h_exec_def)
  have 1: "getAllBorrows search st = getAllBorrows search ?ste"
    by (simp add: getAllBorrows_def q j Let_def)
  have 2: "\<forall>rows. getAllBorrows search st = Inr rows \<longrightarrow>
              (\<forall>row\<in>set rows. r_book_id row \<noteq> bw_book_id r)"
  proof (intro allI impI ballI)
    fix rows row
    assume "getAllBorrows search st = Inr rows" "row \<in> set rows"
    then obtain p where "p \<in> set (borrows_join_books ?d)" "row = borrow_row_of p"
      by (auto simp: getAllBorrows_def q Let_def order_by_desc_def)
    with join_book_ids [of p ?d] have "r_book_id row \<in> bk_id ` set (books ?d)"
      by (cases p) (auto simp: borrow_row_of_def)
    with assms(4) show "r_book_id row \<noteq> bw_book_id r" by auto
  qed
  have t: "top_books ?d = top_books ?e"
    by (simp add: top_books_def j)
  have 3: "\<exists>s s0. getStats today st = Inr s \<and> getStats today ?ste = Inr s0 \<and>
              topBooks s = topBooks s0 \<and> dueToday s = dueToday s0 \<and>
              activeLoans s = activeLoans s0 + (if bw_return_date r = None then 1 else 0) \<and>
              returnedLoans s = returnedLoans s0 + (if bw_return_date r \<noteq> None then 1 else 0) \<and>
              overdueCount s = overdueCount s0 +
                (if bw_return_date r = None \<and> bw_due_date r < today then 1 else 0)"
  proof (rule exI [of _ "stats_of today ?d"], rule exI [of _ "stats_of today ?e"], intro conjI)
    show "getStats today st = Inr (stats_of today ?d)" by (simp add: getStats_def q)
    show "getStats today ?ste = Inr (stats_of today ?e)" by (simp add: getStats_def q)
  qed (simp_all add: stats_of_def t j assms(3))
  from 1 2 3 show ?thesis by (simp add: Let_def)
qed

theorem dangling_borrow_reports_witness:
  "db orphan_engine = Some orphan_handle \<and> \<not> closed orphan_handle \<and>
   borrows (tables orphan_handle) = borrows demo_db @ orphan # [] \<and>
   bw_book_id orphan \<notin> bk_id ` set (books (tables orphan_handle)) \<and>
   (let st0 = orphan_engine\<lparr>db := Some (orphan_handle\<lparr>tables :=
                 (tables orphan_handle)\<lparr>borrows := borrows demo_db @ []\<rparr>\<rparr>)\<rparr> in
      getAllBorrows '''' orphan_engine = getAllBorrows '''' st0 \<and>
      (\<forall>rows. getAllBorrows '''' orphan_engine = Inr rows \<longrightarrow>
         (\<forall>row\<in>set rows. r_book_id row \<noteq> bw_book_id orphan)) \<and>
      (\<exists>s s0. getStats ''2025-01-16'' orphan_engine = Inr s \<and>
         getStats ''2025-01-16'' st0 = Inr s0 \<and>
         topBooks s = topBooks s0 \<and> dueToday s = dueToday s0 \<and>
         activeLoans s = activeLoans s0 + (if bw_return_date orphan = None then 1 else 0) \<and>
         returnedLoans s = returnedLoans s0 + (if bw_return_date orphan \<noteq> None then 1 else 0) \<and>
         overdueCount s = overdueCount s0 +
           (if bw_return_date orphan = None \<and> bw_due_date orphan < ''2025-01-16'' then 1 else 0))) \<and>
   map_sum id (map r_id) (getAllBorrows '''' orphan_engine) = Inr [2, 1] \<and>
   map_sum id activeLoans (getStats ''2025-01-16'' orphan_engine) = Inr 2 \<and>
   map_sum id activeLoans (getStats ''2025-01-16'' demo) = Inr 1 \<and>
   map_sum id overdueCount (getStats ''2025-01-16'' orphan_engine) = Inr 2 \<and>
   map_sum id overdueCount (getStats ''2025-01-16'' demo) = Inr 1"
proof -
  have a: "db orphan_engine = Some orphan_handle"
    by (simp add: orphan_engine_def)
  have b: "\<not> closed orphan_handle"
    by (simp add: orphan_handle_def demo_handle_def)
  have c: "borrows (tables orphan_handle) = borrows demo_db @ orphan # []"
    by (simp add: orphan_handle_def)
  have d: "bw_book_id orphan \<notin> bk_id ` set (books (tables orphan_handle))"
    by (simp add: orphan_handle_def orphan_def demo_db_def book_defs)
  have e: "map_sum id (map r_id) (getAllBorrows '''' orphan_engine) = Inr [2, 1]"
    "map_sum id activeLoans (getStats ''2025-01-16'' orphan_engine) = Inr 2"
    "map_sum id activeLoans (getStats ''2025-01-16'' demo) = Inr 1"
    "map_sum id overdueCount (getStats ''2025-01-16'' orphan_engine) = Inr 2"
    "map_sum id overdueCount (getStats ''2025-01-16'' demo) = Inr 1"
    by code_simp+
  from dangling_borrow_reports [OF a b c d, of "''''" "''2025-01-16''"] a b c d e
  show ?thesis by (intro conjI) assumption+
qed

section \<open>Adding the same title repeatedly\<close>

lemma same_title_isbn_norm:
  "lower_trim t = lower_trim T \<Longrightarrow> lower_trim i = lower_trim I \<Longrightarrow>
   same_title_isbn t i = same_title_isbn T I"
  by (simp add: same_title_isbn_def fun_eq_iff split: option.splits)

lemma addBook_create:
  assumes "ready st" and "live st = Some d"
    and "filter (same_title_isbn title isbn) (books d) = []"
  shows "\<exists>r st' d'. addBook title author isbn category copies st = (Inr r, st') \<and>
           \<not> merged r \<and> ready st' \<and> live st' = Some d' \<and>
           books d' = books d @
             [\<lparr>bk_id = next_rowid (map bk_id (books d)), bk_title = title, bk_author = author,
               bk_isbn = Some isbn, bk_category = category, bk_copies = copies\<rparr>]"
proof -
  let ?s = "sql_insert_book title author isbn category copies"
  from run_live [OF assms(1,2), of ?s] obtain r st'
    where r: "run ?s st = (Inr r, st')" "ready st'" "live st' = Some (fst (?s d))" by blast
  then show ?thesis
    by (intro exI [of _ "\<lparr>res_id = lastInsertRowid r, merged = False, res_copies = copies\<rparr>"]
        exI [of _ st'] exI [of _ "fst (?s d)"])
      (simp add: addBook_def query_live [OF assms(2)] assms(3) sql_insert_book_def Let_def)
qed

lemma addBook_merge:
  assumes "ready st" and "live st = Some d"
    and "filter (same_title_isbn title isbn) (books d) = existing # rest"
  shows "\<exists>r st' d'. addBook title author isbn category copies st = (Inr r, st') \<and>
           merged r \<and> ready st' \<and> live st' = Some d' \<and>
           books d' = map (\<lambda>b. if bk_id b = bk_id existing
                                then b\<lparr>bk_copies := bk_copies b + copies\<rparr> else b) (books d)"
proof -
  let ?s = "sql_update_books (\<lambda>b. bk_id b = bk_id existing) (\<lambda>b. b\<lparr>bk_copies := bk_copies b + copies\<rparr>)"
  from run_live [OF assms(1,2), of ?s] obtain r st'
    where r: "run ?s st = (Inr r, st')" "ready st'" "live st' = Some (fst (?s d))" by blast
  then show ?thesis
    by (intro exI [of _ "\<lparr>res_id = bk_id existing, merged = True,
                          res_copies = bk_copies existing + copies\<rparr>"]
        exI [of _ st'] exI [of _ "fst (?s d)"])
      (simp add: addBook_def query_live [OF assms(2)] assms(3) sql_update_books_def)
qed

lemma addBooks_merge_all:
  assumes "ready st" and "live st = Some d"
    and "filter (same_title_isbn T I) (books d) = [b]"
    and "\<forall>c\<in>set calls. lower_trim (a_title c) = lower_trim T \<and> lower_trim (a_isbn c) = lower_trim I"
  shows "\<exists>rs st' d' b'. addBooks calls st = (Inr rs, st') \<and> ready st' \<and> live st' = Some d' \<and>
           filter (same_title_isbn T I) (books d') = [b'] \<and>
           bk_copies b' = bk_copies b + sum_list (map a_copies calls) \<and>
           map merged rs = replicate (length calls) True"
  using assms
proof (induction calls arbitrary: st d b)
  case Nil
  have a: "addBooks [] st = (Inr [], st)" by simp
  have s: "bk_copies b = bk_copies b + sum_list (map a_copies [])" by simp
  have m: "map merged [] = replicate (length ([] :: add_call list)) True" by simp
  from a s m Nil.prems(1-3) show ?case by blast
next
  case (Cons c cs)
  from Cons.prems(4) have n: "same_title_isbn (a_title c) (a_isbn c) = same_title_isbn T I"
    by (intro same_title_isbn_norm) simp_all
  let ?f = "\<lambda>x. if bk_id x = bk_id b then x\<lparr>bk_copies := bk_copies x + a_copies c\<rparr> else x"
  from Cons.prems(3) n
  have f0: "filter (same_title_isbn (a_title c) (a_isbn c)) (books d) = b # []" by simp
  from addBook_merge [OF Cons.prems(1,2) f0, of "a_author c" "a_category c" "a_copies c"]
  obtain r st1 d1 where
    1: "addBook (a_title c) (a_author c) (a_isbn c) (a_category c) (a_copies c) st = (Inr r, st1)"
      "merged r" "ready st1" "live st1 = Some d1" "books d1 = map ?f (books d)"
    by blast
  have p: "\<And>x. same_title_isbn T I (?f x) = same_title_isbn T I x"
    by (simp add: same_title_isbn_def)
  have "filter (same_title_isbn T I) (books d1) = map ?f (filter (same_title_isbn T I) (books d))"
    by (simp only: 1(5) filter_map o_def p)
  then have f1: "filter (same_title_isbn T I) (books d1) = [b\<lparr>bk_copies := bk_copies b + a_copies c\<rparr>]"
    by (simp add: Cons.prems(3))
  from Cons.prems(4) have rest: "\<forall>c\<in>set cs. lower_trim (a_title c) = lower_trim T \<and>
      lower_trim (a_isbn c) = lower_trim I" by simp
  from Cons.IH [OF 1(3,4) f1 rest] obtain rs st' d' b' where
    2: "addBooks cs st1 = (Inr rs, st')" "ready st'" "live st' = Some d'"
      "filter (same_title_isbn T I) (books d') = [b']"
      "bk_copies b' = bk_copies (b\<lparr>bk_copies := bk_copies b + a_copies c\<rparr>) + sum_list (map a_copies cs)"
      "map merged rs = replicate (length cs) True"
    by blast
  from 1(1) 2(1) have "addBooks (c # cs) st = (Inr (r # rs), st')" by simp
  moreover from 2(5) have "bk_copies b' = bk_copies b + sum_list (map a_copies (c # cs))" by simp
  moreover from 1(2) 2(6) have "map merged (r # rs) = replicate (length (c # cs)) True" by simp
  ultimately show ?case using 2(2,3,4) by blast
qed

text \<open>
  C4, with the comparison the code makes: a non-empty sequence of \<^verbatim>\<open>addBook\<close> calls
  whose titles and isbns are all equal under \<^verbatim>\<open>LOWER(TRIM(.))\<close> (space characters
  trimmed, A to Z folded), on a library that has no such book yet. Every call
  succeeds; the first reports a creation and each later one a merge; afterwards exactly
  one book row matches the pair, and its copies are the sum of the copies of all calls.
\<close>

theorem addBook_sequence:
  assumes "ready st" and "live st = Some d"
    and "\<forall>b\<in>set (books d). \<not> same_title_isbn title isbn b"
    and "calls \<noteq> []"
    and "\<forall>c\<in>set calls. lower_trim (a_title c) = lower_trim title \<and>
                         lower_trim (a_isbn c) = lower_trim isbn"
  shows "\<exists>rs st' d' b. addBooks calls st = (Inr rs, st') \<and> live st' = Some d' \<and>
           filter (same_title_isbn title isbn) (books d') = [b] \<and>
           bk_copies b = sum_list (map a_copies calls) \<and>
           map merged rs = False # replicate (length calls - 1) True"
proof -
  from assms(4) obtain c cs where calls: "calls = c # cs" by (cases calls) auto
  from assms(5) calls have n: "same_title_isbn (a_title c) (a_isbn c) = same_title_isbn title isbn"
    by (intro same_title_isbn_norm) simp_all
  from assms(3) have e: "filter (same_title_isbn title isbn) (books d) = []"
    by (auto simp: filter_empty_conv)
  let ?new = "\<lparr>bk_id = next_rowid (map bk_id (books d)), bk_title = a_title c,
               bk_author = a_author c, bk_isbn = Some (a_isbn c), bk_category = a_category c,
               bk_copies = a_copies c\<rparr>"
  from addBook_create [OF assms(1,2), of "a_title c" "a_isbn c" "a_author c" "a_category c"
      "a_copies c"] e n
  obtain r st1 d1 where
    1: "addBook (a_title c) (a_author c) (a_isbn c) (a_category c) (a_copies c) st = (Inr r, st1)"
      "\<not> merged r" "ready st1" "live st1 = Some d1" "books d1 = books d @ [?new]"
    by auto
  from assms(5) calls have "same_title_isbn title isbn ?new"
    by (simp add: same_title_isbn_def)
  with e 1(5) have f1: "filter (same_title_isbn title isbn) (books d1) = [?new]" by simp
  from assms(5) calls have rest: "\<forall>c\<in>set cs. lower_trim (a_title c) = lower_trim title \<and>
      lower_trim (a_isbn c) = lower_trim isbn" by simp
  from addBooks_merge_all [OF 1(3,4) f1 rest] obtain rs st' d' b' where
    2: "addBooks cs st1 = (Inr rs, st')" "live st' = Some d'"
      "filter (same_title_isbn title isbn) (books d') = [b']"
      "bk_copies b' = bk_copies ?new + sum_list (map a_copies cs)"
      "map merged rs = replicate (length cs) True"
    by blast
  show ?thesis
    by (intro exI [of _ "r # rs"] exI [of _ st'] exI [of _ d'] exI [of _ b'])
      (use calls 1 2 in simp)
qed

theorem addBook_sequence_witness:
  "ready demo \<and> live demo = Some demo_db \<and>
   list_all (\<lambda>b. \<not> same_title_isbn ''solaris'' ''77'' b) (books demo_db) \<and>
   solaris_calls \<noteq> [] \<and>
   list_all (\<lambda>c. lower_trim (a_title c) = lower_trim ''solaris'' \<and>
                   lower_trim (a_isbn c) = lower_trim ''77'') solaris_calls \<and>
   (\<exists>rs st' d' b. addBooks solaris_calls demo = (Inr rs, st') \<and> live st' = Some d' \<and>
      filter (same_title_isbn ''solaris'' ''77'') (books d') = [b] \<and>
      bk_copies b = 5 \<and> map merged rs = [False, True])"
proof -
  have a: "\<forall>b\<in>set (books demo_db). \<not> same_title_isbn ''solaris'' ''77'' b"
    by code_simp
  have b: "solaris_calls \<noteq> []"
    by (simp add: solaris_calls_def)
  have c: "\<forall>c\<in>set solaris_calls. lower_trim (a_title c) = lower_trim ''solaris'' \<and>
                            lower_trim (a_isbn c) = lower_trim ''77''"
    by code_simp
  from addBook_sequence [OF ready_demo live_demo a b c]
  obtain rs st' d' bk where
    r: "addBooks solaris_calls demo = (Inr rs, st')" "live st' = Some d'"
      "filter (same_title_isbn ''solaris'' ''77'') (books d') = [bk]"
      "bk_copies bk = sum_list (map a_copies solaris_calls)"
      "map merged rs = False # replicate (length solaris_calls - 1) True"
    by (elim exE conjE)
  have 1: "bk_copies bk = 5"
    by (simp add: r(4) solaris_calls_def)
  have 2: "map merged rs = [False, True]"
    by (simp add: r(5) solaris_calls_def)
  from a b c r(1-3) 1 2 ready_demo live_demo show ?thesis
    unfolding list_all_iff
    by (intro conjI exI [of _ rs] exI [of _ st'] exI [of _ d'] exI [of _ bk]) simp_all
qed

text \<open>
  The wording ``equal after case-folding and trimming whitespace'' is wider than what
  \<^verbatim>\<open>addBook\<close> compares: the titles \<open>Tao\<close> and \<open>Tao\<close> followed by a tab, with the same
  isbn, are equal in those words, yet both calls report a creation and the library ends
  with two rows, of 1 and 2 copies.
\<close>

theorem addBook_sequence_counterexample:
  "map a_title tab_calls = [''Tao'', tao_tab] \<and>
   map a_isbn tab_calls = [''9'', ''9''] \<and>
   spec_normalize ''Tao'' = spec_normalize tao_tab \<and>
   map_sum id (map merged) (fst (addBooks tab_calls demo)) = Inr [False, False] \<and>
   map_option (map bk_title) (map_option books (live (snd (addBooks tab_calls demo))))
     = Some [''Dune'', ''Emma'', ''Cosmos'', ''Tao'', tao_tab] \<and>
   map_option (map bk_copies) (map_option books (live (snd (addBooks tab_calls demo))))
     = Some [2, 0, 1, 1, 2]"
  by (intro conjI; code_simp)

end
